theory Spec2Isabelle
  imports Main
begin

section \<open>JSON values and Python dictionaries\<close>

text \<open>
  The streams of \<^verbatim>\<open>tap_gorgias/streams.py\<close> work on the values that
  \<^verbatim>\<open>response.json()\<close> returns: \<^verbatim>\<open>None\<close>, booleans, numbers, strings, lists and
  dictionaries with string keys. A Python dictionary keeps its keys in insertion order,
  and \<^verbatim>\<open>parse_response\<close> iterates over \<^verbatim>\<open>list(d.keys())\<close>, so a dictionary is an
  association list; its keys are pairwise distinct (\<open>dict_ok\<close> below). A non-integer
  number is a leaf that no function here inspects; it is kept as its literal.
\<close>

datatype json =
    JNull
  | JBool bool
  | JInt int
  | JFloat string
  | JStr string
  | JArr "json list"
  | JObj "(string \<times> json) list"

type_synonym dict = "(string \<times> json) list"

text \<open>
  The exceptions of the source are values. \<open>KeyError\<close>, \<open>TypeError\<close> and
  \<open>AttributeError\<close> are the ones Python raises in the functions below.
  \<open>TransformError\<close> and \<open>ContextError\<close> are the error kinds the specification
  names; no line of the source raises them.
\<close>

datatype error = KeyError | TypeError | AttributeError | TransformError | ContextError

text \<open>\<^verbatim>\<open>d[k] = v\<close> on a dictionary: an existing key keeps its position, a new key goes last.\<close>

fun dict_set :: "dict \<Rightarrow> string \<Rightarrow> json \<Rightarrow> dict" where
  "dict_set [] k v = [(k, v)]"
| "dict_set ((k', v') # d) k v = (if k' = k then (k, v) # d else (k', v') # dict_set d k v)"

text \<open>Removing a key, as \<^verbatim>\<open>d.pop(k)\<close> and \<^verbatim>\<open>del d[k]\<close> do; the other keys keep their order.\<close>

definition dict_del :: "dict \<Rightarrow> string \<Rightarrow> dict" where
  "dict_del d k = filter (\<lambda>p. fst p \<noteq> k) d"

definition dict_keys :: "dict \<Rightarrow> string list" where
  "dict_keys d = map fst d"

text \<open>
  \<^verbatim>\<open>x[k]\<close> with a string \<open>k\<close>: a missing key of a dictionary is a \<^verbatim>\<open>KeyError\<close>;
  a list, a string, a number, a boolean or \<^verbatim>\<open>None\<close> cannot be subscripted with a
  string, which is a \<^verbatim>\<open>TypeError\<close>.
\<close>

fun getitem :: "json \<Rightarrow> string \<Rightarrow> error + json" where
  "getitem (JObj d) k = (case map_of d k of None \<Rightarrow> Inl KeyError | Some v \<Rightarrow> Inr v)"
| "getitem _ k = Inl TypeError"

text \<open>\<^verbatim>\<open>x[k] = v\<close> with a string \<open>k\<close>: only a dictionary accepts it.\<close>

fun setitem :: "json \<Rightarrow> string \<Rightarrow> json \<Rightarrow> error + json" where
  "setitem (JObj d) k v = Inr (JObj (dict_set d k v))"
| "setitem _ k v = Inl TypeError"

text \<open>
  \<^verbatim>\<open>x.pop(k)\<close> with a string \<open>k\<close> and no default: the value and the object without
  the key. A missing key is a \<^verbatim>\<open>KeyError\<close>; \<^verbatim>\<open>list.pop\<close> wants an integer
  (\<^verbatim>\<open>TypeError\<close>); the other values have no \<^verbatim>\<open>pop\<close> (\<^verbatim>\<open>AttributeError\<close>).
\<close>

fun pop :: "json \<Rightarrow> string \<Rightarrow> error + (json \<times> json)" where
  "pop (JObj d) k =
     (case map_of d k of None \<Rightarrow> Inl KeyError | Some v \<Rightarrow> Inr (v, JObj (dict_del d k)))"
| "pop (JArr xs) k = Inl TypeError"
| "pop _ k = Inl AttributeError"

text \<open>
  \<^verbatim>\<open>x.pop(k, None)\<close>, its value dropped: the object without the key, unchanged when
  the key is missing. \<^verbatim>\<open>list.pop\<close> takes one argument at most (\<^verbatim>\<open>TypeError\<close>).
\<close>

fun pop_default :: "json \<Rightarrow> string \<Rightarrow> error + json" where
  "pop_default (JObj d) k = Inr (JObj (dict_del d k))"
| "pop_default (JArr xs) k = Inl TypeError"
| "pop_default _ k = Inl AttributeError"

text \<open>\<^verbatim>\<open>list(x.keys())\<close>: only a dictionary has \<^verbatim>\<open>keys\<close>.\<close>

fun keys_of :: "json \<Rightarrow> error + string list" where
  "keys_of (JObj d) = Inr (dict_keys d)"
| "keys_of _ = Inl AttributeError"

text \<open>Sequencing of fallible steps: the first exception ends the computation.\<close>

fun bind :: "error + 'a \<Rightarrow> ('a \<Rightarrow> error + 'b) \<Rightarrow> error + 'b" where
  "bind (Inl e) f = Inl e"
| "bind (Inr x) f = f x"

text \<open>A \<^verbatim>\<open>for\<close> loop over a list whose body updates a state and may raise.\<close>

fun for_each :: "('a \<Rightarrow> 's \<Rightarrow> error + 's) \<Rightarrow> 'a list \<Rightarrow> 's \<Rightarrow> error + 's" where
  "for_each body [] s = Inr s"
| "for_each body (x # xs) s = bind (body x s) (for_each body xs)"

section \<open>TicketDetailsStream.parse\_response\<close>

text \<open>
  \<^verbatim>\<open>
  resp = response.json()
  for key in list(resp["customer"]["integrations"].keys()):
      if resp["customer"]["integrations"][key]["__integration_type__"] == "shopify":
          resp["customer"]["integrations"]["shopify"] = resp["customer"]["integrations"].pop(key)
          resp["customer"]["integrations"]["shopify"]["id"] = key
  yield resp
  \<close>
  The argument of the model is the decoded body \<open>resp\<close>. The source mutates the
  dictionaries in place; the model passes \<open>resp\<close> along and writes every changed
  dictionary back under the key it was read from (\<open>put_integrations\<close>), which an
  existing key receives in place.
\<close>

definition put_integrations :: "json \<Rightarrow> json \<Rightarrow> error + json" where
  "put_integrations resp ints =
     bind (getitem resp ''customer'') (\<lambda>customer.
     bind (setitem customer ''integrations'' ints) (\<lambda>customer'.
     setitem resp ''customer'' customer'))"

definition swap_key :: "string \<Rightarrow> json \<Rightarrow> error + json" where
  "swap_key key resp =
     bind (getitem resp ''customer'') (\<lambda>customer.
     bind (getitem customer ''integrations'') (\<lambda>ints.
     bind (getitem ints key) (\<lambda>entry.
     bind (getitem entry ''__integration_type__'') (\<lambda>t.
       if t = JStr ''shopify'' then
         bind (pop ints key) (\<lambda>(popped, ints1).
         bind (setitem ints1 ''shopify'' popped) (\<lambda>ints2.
         bind (getitem ints2 ''shopify'') (\<lambda>shop.
         bind (setitem shop ''id'' (JStr key)) (\<lambda>shop'.
         bind (setitem ints2 ''shopify'' shop') (\<lambda>ints3.
         put_integrations resp ints3)))))
       else Inr resp))))"

text \<open>The generator yields one item, \<open>resp\<close>; the result is the list of yielded items.\<close>

definition parse_response :: "json \<Rightarrow> error + json list" where
  "parse_response resp =
     bind (getitem resp ''customer'') (\<lambda>customer.
     bind (getitem customer ''integrations'') (\<lambda>ints.
     bind (keys_of ints) (\<lambda>ks.
     bind (for_each swap_key ks resp) (\<lambda>resp'.
     Inr [resp']))))"

section \<open>TicketDetailsStream.post\_process\<close>

text \<open>
  \<^verbatim>\<open>
  row.pop("body_text", None)
  row.pop("body_html", None)
  row.pop("stripped_text", None)
  row.pop("stripped_html", None)
  for message in row["messages"]:
      message.pop("body_text", None)
      message.pop("body_html", None)
      message.pop("stripped_text", None)
      message.pop("stripped_html", None)
  return row
  \<close>
  The four pops are the same for the row and for each message: \<open>pop_bodies\<close>.
  Where the function returns, it returns the row, never \<^verbatim>\<open>None\<close>: the result is the
  row or the exception.
\<close>

definition pop_bodies :: "json \<Rightarrow> error + json" where
  "pop_bodies x =
     bind (pop_default x ''body_text'') (\<lambda>x1.
     bind (pop_default x1 ''body_html'') (\<lambda>x2.
     bind (pop_default x2 ''stripped_text'') (\<lambda>x3.
     pop_default x3 ''stripped_html'')))"

text \<open>
  What \<^verbatim>\<open>for message in x\<close> iterates over: the elements of a list, the keys of a
  dictionary, the one-character strings of a string; the other values are not iterable
  (\<^verbatim>\<open>TypeError\<close>).
\<close>

fun iterate :: "json \<Rightarrow> error + json list" where
  "iterate (JArr xs) = Inr xs"
| "iterate (JObj d) = Inr (map JStr (dict_keys d))"
| "iterate (JStr s) = Inr (map (\<lambda>c. JStr [c]) s)"
| "iterate _ = Inl TypeError"

text \<open>The loop body applied to each element in turn; the first exception ends the loop.\<close>

fun map_each :: "('a \<Rightarrow> error + 'b) \<Rightarrow> 'a list \<Rightarrow> error + 'b list" where
  "map_each f [] = Inr []"
| "map_each f (x # xs) = bind (f x) (\<lambda>y. bind (map_each f xs) (\<lambda>ys. Inr (y # ys)))"

text \<open>
  The messages are changed in place, so the row holds the pruned messages under the key
  \<^verbatim>\<open>"messages"\<close> afterwards. Only the elements of a list can be changed by the loop
  body: a key or a character is a string, on which \<^verbatim>\<open>pop\<close> raises.
\<close>

definition post_process :: "json \<Rightarrow> dict option \<Rightarrow> error + json" where
  "post_process row context =
     bind (pop_bodies row) (\<lambda>row1.
     bind (getitem row1 ''messages'') (\<lambda>messages.
     bind (iterate messages) (\<lambda>items.
     bind (map_each pop_bodies items) (\<lambda>items'.
       case messages of
         JArr _ \<Rightarrow> setitem row1 ''messages'' (JArr items')
       | _ \<Rightarrow> Inr row1))))"

section \<open>The other methods\<close>

text \<open>\<^verbatim>\<open>TicketsStream.get_child_context\<close>: \<^verbatim>\<open>return {"ticket_id": record["id"]}\<close>.\<close>

definition get_child_context :: "json \<Rightarrow> dict option \<Rightarrow> error + dict" where
  "get_child_context record context =
     bind (getitem record ''id'') (\<lambda>v. Inr [(''ticket_id'', v)])"

text \<open>\<^verbatim>\<open>TicketDetailsStream.get_url_params\<close>: \<^verbatim>\<open>return {}\<close>.\<close>

definition get_url_params :: "dict option \<Rightarrow> json option \<Rightarrow> dict" where
  "get_url_params context next_page_token = []"

section \<open>The stream classes\<close>

text \<open>
  A stream class is its class attributes. An attribute that the class body does not
  assign is \<open>None\<close>: \<^verbatim>\<open>replication_key\<close>, \<^verbatim>\<open>parent_stream_type\<close> (here the name of
  the parent stream) and \<^verbatim>\<open>state_partitioning_keys\<close>.
\<close>

record stream =
  name :: string
  path :: string
  primary_keys :: "string list"
  replication_key :: "string option"
  parent_stream_type :: "string option"
  state_partitioning_keys :: "string list option"

definition TicketsStream :: stream where
  "TicketsStream = \<lparr> name = ''tickets'', path = ''/api/tickets'', primary_keys = [''id''],
     replication_key = Some ''updated_datetime'', parent_stream_type = None,
     state_partitioning_keys = None \<rparr>"

definition TicketDetailsStream :: stream where
  "TicketDetailsStream = \<lparr> name = ''ticket_details'', path = ''/api/tickets/{ticket_id}'',
     primary_keys = [''id''], replication_key = None, parent_stream_type = Some ''tickets'',
     state_partitioning_keys = Some [] \<rparr>"

definition MessagesStream :: stream where
  "MessagesStream = \<lparr> name = ''messages'', path = ''/api/tickets/{ticket_id}/messages'',
     primary_keys = [''id''], replication_key = None, parent_stream_type = Some ''tickets'',
     state_partitioning_keys = Some [] \<rparr>"

definition SatisfactionSurveysStream :: stream where
  "SatisfactionSurveysStream = \<lparr> name = ''satisfaction_surveys'',
     path = ''/api/satisfaction-surveys'', primary_keys = [''id''], replication_key = None,
     parent_stream_type = None, state_partitioning_keys = None \<rparr>"

definition CustomersStream :: stream where
  "CustomersStream = \<lparr> name = ''customers'', path = ''/api/customers'',
     primary_keys = [''id''], replication_key = None, parent_stream_type = None,
     state_partitioning_keys = None \<rparr>"

definition IntegreationsStream :: stream where
  "IntegreationsStream = \<lparr> name = ''integrations'', path = ''/api/integrations'',
     primary_keys = [''id''], replication_key = None, parent_stream_type = None,
     state_partitioning_keys = None \<rparr>"

text \<open>
  The schema helpers of \<^verbatim>\<open>singer_sdk.typing\<close>: a \<^verbatim>\<open>th.Property(name, type)\<close> is a
  pair, \<^verbatim>\<open>th.ObjectType\<close> and \<^verbatim>\<open>th.PropertiesList\<close> hold a list of them.
\<close>

datatype th =
    IntegerType
  | StringType
  | BooleanType
  | DateTimeType
  | ArrayType th
  | ObjectType "(string \<times> th) list"

type_synonym properties = "(string \<times> th) list"

definition TicketDetailsStream_schema :: properties where
  "TicketDetailsStream_schema =
    [(''id'', IntegerType),
     (''assignee_user'', ObjectType
        [(''id'', IntegerType), (''email'', StringType), (''name'', StringType),
         (''first_name'', StringType), (''last_name'', StringType)]),
     (''channel'', StringType),
     (''closed_datetime'', DateTimeType),
     (''created_datetime'', DateTimeType),
     (''customer'', ObjectType
        [(''id'', IntegerType), (''name'', StringType), (''email'', StringType),
         (''integrations'', ObjectType
            [(''shopify'', ObjectType
                [(''id'', IntegerType),
                 (''orders'', ArrayType (ObjectType
                    [(''id'', IntegerType), (''name'', StringType),
                     (''line_items'', ArrayType (ObjectType [(''id'', IntegerType)]))]))])])]),
     (''events'', ArrayType (ObjectType
        [(''id'', IntegerType), (''context'', StringType),
         (''created_datetime'', DateTimeType), (''object_id'', IntegerType),
         (''date'', DateTimeType), (''object_type'', StringType), (''type'', StringType),
         (''user_id'', IntegerType), (''uri'', StringType)])),
     (''external_id'', StringType),
     (''from_agent'', BooleanType),
     (''is_unread'', BooleanType),
     (''language'', StringType),
     (''last_message_datetime'', DateTimeType),
     (''last_received_message_datetime'', DateTimeType),
     (''opened_datetime'', DateTimeType),
     (''priority'', StringType),
     (''snooze_datetime'', DateTimeType),
     (''spam'', BooleanType),
     (''status'', StringType),
     (''subject'', StringType),
     (''tags'', ArrayType (ObjectType
        [(''id'', IntegerType), (''name'', StringType),
         (''decoration'', ObjectType [(''color'', StringType)])])),
     (''trashed_datetime'', DateTimeType),
     (''updated_datetime'', DateTimeType),
     (''via'', StringType),
     (''uri'', StringType)]"

text \<open>The field names a schema declares at top level.\<close>

definition schema_fields :: "properties \<Rightarrow> string list" where
  "schema_fields props = map fst props"

section \<open>Vocabulary of the properties\<close>

text \<open>
  The decoded body whose top-level dictionary is \<open>d\<close>, whose \<^verbatim>\<open>"customer"\<close> is
  \<open>cust\<close> and whose \<^verbatim>\<open>"integrations"\<close> mapping is \<open>ints\<close>; and the way back,
  \<^verbatim>\<open>resp["customer"]["integrations"]\<close>.
\<close>

definition with_integrations :: "dict \<Rightarrow> dict \<Rightarrow> dict \<Rightarrow> json" where
  "with_integrations d cust ints =
     JObj (dict_set d ''customer'' (JObj (dict_set cust ''integrations'' (JObj ints))))"

definition integrations_of :: "json \<Rightarrow> error + json" where
  "integrations_of resp =
     bind (getitem resp ''customer'') (\<lambda>customer. getitem customer ''integrations'')"

text \<open>
  A sub-object carries the discriminator when \<^verbatim>\<open>v["__integration_type__"]\<close> does not
  raise; it matches when the value is the string \<^verbatim>\<open>"shopify"\<close>.
\<close>

definition has_discriminator :: "json \<Rightarrow> bool" where
  "has_discriminator v =
     (case getitem v ''__integration_type__'' of Inl _ \<Rightarrow> False | Inr _ \<Rightarrow> True)"

definition is_shopify :: "json \<Rightarrow> bool" where
  "is_shopify v = (getitem v ''__integration_type__'' = Inr (JStr ''shopify''))"

definition shopify_entries :: "dict \<Rightarrow> dict" where
  "shopify_entries ints = filter (\<lambda>p. is_shopify (snd p)) ints"

definition other_entries :: "dict \<Rightarrow> dict" where
  "other_entries ints = filter (\<lambda>p. \<not> is_shopify (snd p)) ints"

text \<open>A sub-object with its former key stored in the field \<^verbatim>\<open>"id"\<close>.\<close>

fun with_id :: "string \<Rightarrow> json \<Rightarrow> json" where
  "with_id k (JObj fs) = JObj (dict_set fs ''id'' (JStr k))"
| "with_id k v = v"

text \<open>
  The \<^verbatim>\<open>"shopify"\<close> slot at the end of the loop over \<open>ints\<close>, when it was \<open>s\<close> at
  the start: the last matching entry of \<open>ints\<close>, if there is one.
\<close>

definition relocated :: "dict \<Rightarrow> dict \<Rightarrow> dict" where
  "relocated s ints =
     (case shopify_entries ints of
        [] \<Rightarrow> s
      | e # es \<Rightarrow> [(''shopify'', with_id (fst (last (e # es))) (snd (last (e # es))))])"

text \<open>The fields that \<^verbatim>\<open>post_process\<close> removes, and a dictionary without them.\<close>

definition body_fields :: "string list" where
  "body_fields = [''body_text'', ''body_html'', ''stripped_text'', ''stripped_html'']"

definition prune :: "dict \<Rightarrow> dict" where
  "prune d = filter (\<lambda>p. fst p \<notin> set body_fields) d"

definition has_field :: "json \<Rightarrow> string \<Rightarrow> bool" where
  "has_field x k = (case getitem x k of Inl _ \<Rightarrow> False | Inr _ \<Rightarrow> True)"

text \<open>
  The placeholders of an endpoint template: the names between \<^verbatim>\<open>{\<close> and \<^verbatim>\<open>}\<close>,
  as in \<^verbatim>\<open>"/api/tickets/{ticket_id}"\<close>. The second argument is the name being read,
  reversed, when the scan is inside braces.
\<close>

fun scan_placeholders :: "string \<Rightarrow> string option \<Rightarrow> string list" where
  "scan_placeholders [] cur = []"
| "scan_placeholders (c # cs) None =
     (if c = CHR ''{'' then scan_placeholders cs (Some []) else scan_placeholders cs None)"
| "scan_placeholders (c # cs) (Some acc) =
     (if c = CHR ''}'' then rev acc # scan_placeholders cs None
      else scan_placeholders cs (Some (c # acc)))"

definition placeholders :: "string \<Rightarrow> string list" where
  "placeholders template = scan_placeholders template None"

section \<open>The state tracker\<close>

text \<open>
  Modelled from the spec: the Incremental State Tracker (section 4.4), which is not among
  the sources; the streams only configure it through \<^verbatim>\<open>replication_key\<close> and
  \<^verbatim>\<open>state_partitioning_keys\<close>. A stream is full-refresh-only when no replication key is
  set for it ("decides whether a stream supports incremental sync or must run
  full-refresh every time").
\<close>

definition full_refresh_only :: "stream \<Rightarrow> bool" where
  "full_refresh_only s = (replication_key s = None)"

text \<open>
  Modelled from the spec: the key of a bookmark is the stream name, with the partition
  when the state is partitioned ("per-stream, or per-stream-per-partition, when state is
  partitioned by parent key"). The partition of a context is its restriction to the
  stream's \<^verbatim>\<open>state_partitioning_keys\<close>, and the whole context when the stream sets none;
  with the empty list no part of the context is left ("all records across all parent
  partitions share one bookmark for that stream name").
\<close>

definition stream_key :: "stream \<Rightarrow> dict \<Rightarrow> string \<times> dict" where
  "stream_key s context =
     (name s,
      case state_partitioning_keys s of
        None \<Rightarrow> context
      | Some ks \<Rightarrow> filter (\<lambda>p. fst p \<in> set ks) context)"

text \<open>
  Modelled from the spec: \<open>observe\<close> raises the high-water mark of the stream key when
  the candidate is greater, \<open>resume\<close> reads it; "for streams declared full-refresh-only,
  observe/resume are no-ops".
\<close>

definition observe ::
  "stream \<Rightarrow> dict \<Rightarrow> 'v::linorder \<Rightarrow> (string \<times> dict \<rightharpoonup> 'v) \<Rightarrow> (string \<times> dict \<rightharpoonup> 'v)" where
  "observe s context v marks =
     (if full_refresh_only s then marks
      else case marks (stream_key s context) of
             None \<Rightarrow> marks(stream_key s context \<mapsto> v)
           | Some cur \<Rightarrow> if cur < v then marks(stream_key s context \<mapsto> v) else marks)"

definition resume :: "stream \<Rightarrow> dict \<Rightarrow> (string \<times> dict \<rightharpoonup> 'v) \<Rightarrow> 'v option" where
  "resume s context marks =
     (if full_refresh_only s then None else marks (stream_key s context))"

section \<open>Sample data\<close>

text \<open>
  Two integration sub-objects, one of type \<^verbatim>\<open>"shopify"\<close>, and a ticket-details body
  around a given \<^verbatim>\<open>"integrations"\<close> mapping.
\<close>

definition shopify_object :: json where
  "shopify_object = JObj [(''__integration_type__'', JStr ''shopify''), (''orders'', JArr [])]"

definition email_object :: json where
  "email_object = JObj [(''__integration_type__'', JStr ''email'')]"

definition sample_message :: json where
  "sample_message =
     JObj [(''id'', JInt 10), (''body_text'', JStr ''hi''), (''body_html'', JStr ''<p>hi</p>''),
           (''stripped_text'', JStr ''hi''), (''stripped_html'', JStr ''<p>hi</p>'')]"

definition sample_response :: "dict \<Rightarrow> json" where
  "sample_response ints =
     JObj [(''id'', JInt 1),
           (''customer'', JObj [(''id'', JInt 2), (''integrations'', JObj ints)]),
           (''body_text'', JStr ''t''), (''body_html'', JStr ''h''),
           (''stripped_text'', JStr ''st''), (''stripped_html'', JStr ''sh''),
           (''messages'', JArr [sample_message, sample_message]),
           (''subject'', JNull)]"

section \<open>Dictionaries and the loop of parse\_response\<close>

lemma map_of_dict_set: "map_of (dict_set d k v) k' = (if k' = k then Some v else map_of d k')"
  by (induction d) auto

lemma dict_set_same: "map_of d k = Some v \<Longrightarrow> dict_set d k v = d"
  by (induction d) (auto split: if_splits)

lemma dict_set_twice: "dict_set (dict_set d k a) k b = dict_set d k b"
  by (induction d) auto

lemma dict_keys_dict_set: "map_of d k = Some a \<Longrightarrow> dict_keys (dict_set d k v) = dict_keys d"
  by (induction d) (auto simp: dict_keys_def split: if_splits)

lemma dict_set_new: "k \<notin> set (dict_keys d) \<Longrightarrow> dict_set d k v = d @ [(k, v)]"
  by (induction d) (auto simp: dict_keys_def)

lemma dict_set_last: "k \<notin> set (dict_keys d) \<Longrightarrow> dict_set (d @ [(k, a)]) k v = d @ [(k, v)]"
  by (induction d) (auto simp: dict_keys_def)

lemma dict_del_absent: "k \<notin> set (dict_keys d) \<Longrightarrow> dict_del d k = d"
  by (induction d) (auto simp: dict_keys_def dict_del_def)

lemma dict_del_append: "dict_del (a @ b) k = dict_del a k @ dict_del b k"
  by (simp add: dict_del_def)

lemma map_of_dict_del: "map_of (dict_del d k) k' = (if k' = k then None else map_of d k')"
  by (induction d) (auto simp: dict_del_def)

lemma getitem_with_integrations:
  "getitem (with_integrations d cust ints) ''customer'' = Inr (JObj (dict_set cust ''integrations'' (JObj ints)))"
  by (simp add: with_integrations_def map_of_dict_set)

lemma integrations_of_with_integrations:
  "integrations_of (with_integrations d cust ints) = Inr (JObj ints)"
  by (simp add: integrations_of_def getitem_with_integrations map_of_dict_set)

lemma put_integrations_with_integrations:
  "put_integrations (with_integrations d cust ints) (JObj ints') = Inr (with_integrations d cust ints')"
  by (simp add: put_integrations_def getitem_with_integrations)
     (simp add: with_integrations_def dict_set_twice)

lemma with_integrations_same:
  "map_of d ''customer'' = Some (JObj cust) \<Longrightarrow> map_of cust ''integrations'' = Some (JObj ints)
   \<Longrightarrow> with_integrations d cust ints = JObj d"
  by (simp add: with_integrations_def dict_set_same)

lemma integrations_ofD:
  "integrations_of resp = Inr (JObj ints) \<Longrightarrow>
   \<exists>d cust. resp = with_integrations d cust ints \<and> resp = JObj d \<and> map_of d ''customer'' = Some (JObj cust) \<and> map_of cust ''integrations'' = Some (JObj ints)"
  apply (cases resp; simp add: integrations_of_def split: option.splits)
  subgoal for d v
    by (cases v; simp split: option.splits) (simp add: with_integrations_same)
  done

text \<open>One iteration of the loop on an entry that carries a discriminator.\<close>

lemma swap_key_step:
  assumes "map_of ints key = Some (JObj fs)" and "map_of fs ''__integration_type__'' = Some t"
  shows "swap_key key (with_integrations d cust ints) =
         Inr (with_integrations d cust
               (if t = JStr ''shopify''
                then dict_set (dict_del ints key) ''shopify'' (JObj (dict_set fs ''id'' (JStr key)))
                else ints))"
  using assms
  by (simp add: swap_key_def getitem_with_integrations map_of_dict_set
        put_integrations_with_integrations dict_set_twice)


lemma has_discriminatorD:
  "has_discriminator v \<Longrightarrow> \<exists>fs t. v = JObj fs \<and> map_of fs ''__integration_type__'' = Some t"
  by (cases v) (auto simp: has_discriminator_def split: option.splits)

lemma is_shopify_JObj:
  "map_of fs ''__integration_type__'' = Some t \<Longrightarrow> is_shopify (JObj fs) = (t = JStr ''shopify'')"
  by (simp add: is_shopify_def)

lemma map_of_middle:
  "k \<notin> set (dict_keys a) \<Longrightarrow> map_of (a @ (k, v) # r) k = Some v"
  by (induction a) (auto simp: dict_keys_def)

lemma dict_del_middle:
  assumes "k \<notin> set (dict_keys a)" "k \<notin> set (dict_keys r)" "k \<notin> set (dict_keys s)"
  shows "dict_del (a @ (k, v) # r @ s) k = a @ r @ s"
proof -
  have "dict_del (a @ [(k, v)] @ r @ s) k = dict_del a k @ dict_del [(k, v)] k @ dict_del r k @ dict_del s k"
    by (simp only: dict_del_append)
  also have "\<dots> = a @ [] @ r @ s"
    by (simp add: dict_del_absent [OF assms(1)] dict_del_absent [OF assms(2)]
          dict_del_absent [OF assms(3)])
       (simp add: dict_del_def)
  finally show ?thesis by simp
qed

lemma dict_set_slot:
  assumes "''shopify'' \<notin> set (dict_keys a)" "s = [] \<or> (\<exists>x. s = [(''shopify'', x)])"
  shows "dict_set (a @ s) ''shopify'' v = a @ [(''shopify'', v)]"
  using assms by (auto simp: dict_set_new dict_set_last)

lemma relocated_Cons:
  "relocated s ((k, v) # r) = (if is_shopify v then relocated [(''shopify'', with_id k v)] r else relocated s r)"
  by (auto simp: relocated_def shopify_entries_def split: list.splits)

lemma swap_loop:
  assumes "distinct (dict_keys (a @ r))" and "''shopify'' \<notin> set (dict_keys (a @ r))"
    and "\<forall>p \<in> set r. has_discriminator (snd p)"
    and "s = [] \<or> (\<exists>x. s = [(''shopify'', x)])"
  shows "for_each swap_key (dict_keys r) (with_integrations d cust (a @ r @ s)) =
         Inr (with_integrations d cust (a @ other_entries r @ relocated s r))"
  using assms
proof (induction r arbitrary: a s)
  case Nil
  then show ?case by (simp add: dict_keys_def other_entries_def relocated_def shopify_entries_def)
next
  case (Cons p r)
  obtain k v where p: "p = (k, v)" by (cases p)
  from Cons.prems(3) p obtain fs t where v: "v = JObj fs"
    and t: "map_of fs ''__integration_type__'' = Some t"
    using has_discriminatorD by fastforce
  from Cons.prems(1) p have ka: "k \<notin> set (dict_keys a)" and kr: "k \<notin> set (dict_keys r)"
    by (auto simp: dict_keys_def)
  from Cons.prems(2) p have ks: "k \<noteq> ''shopify''" by (auto simp: dict_keys_def)
  with Cons.prems(4) have kS: "k \<notin> set (dict_keys s)" by (auto simp: dict_keys_def)
  have look: "map_of (a @ (k, v) # r @ s) k = Some (JObj fs)"
    using map_of_middle [OF ka, of v "r @ s"] v by simp
  have keys: "dict_keys ((k, v) # r) = k # dict_keys r" by (simp add: dict_keys_def)
  show ?case
  proof (cases "t = JStr ''shopify''")
    case False
    have step: "swap_key k (with_integrations d cust (a @ p # r @ s)) =
                Inr (with_integrations d cust ((a @ [p]) @ r @ s))"
      using swap_key_step [OF look t, of d cust] False p by simp
    have ih: "for_each swap_key (dict_keys r) (with_integrations d cust ((a @ [p]) @ r @ s)) =
              Inr (with_integrations d cust ((a @ [p]) @ other_entries r @ relocated s r))"
      using Cons.prems by (intro Cons.IH) (auto simp: dict_keys_def)
    have ns: "\<not> is_shopify v" using False is_shopify_JObj [OF t] v by simp
    show ?thesis
      using step ih ns by (simp add: keys p relocated_Cons other_entries_def)
  next
    case True
    have del: "dict_del (a @ (k, v) # r @ s) k = a @ r @ s"
      by (rule dict_del_middle [OF ka kr kS])
    have slot: "dict_set ((a @ r) @ s) ''shopify'' (with_id k v) = (a @ r) @ [(''shopify'', with_id k v)]"
      using Cons.prems(2,4) by (intro dict_set_slot) (auto simp: dict_keys_def)
    have step: "swap_key k (with_integrations d cust (a @ p # r @ s)) =
                Inr (with_integrations d cust (a @ r @ [(''shopify'', with_id k v)]))"
      using swap_key_step [OF look t, of d cust] True p del slot v by simp
    have ih: "for_each swap_key (dict_keys r) (with_integrations d cust (a @ r @ [(''shopify'', with_id k v)])) =
              Inr (with_integrations d cust (a @ other_entries r @ relocated [(''shopify'', with_id k v)] r))"
      using Cons.prems by (intro Cons.IH) (auto simp: dict_keys_def)
    have sh: "is_shopify v" using True is_shopify_JObj [OF t] v by simp
    show ?thesis
      using step ih sh by (simp add: keys p relocated_Cons other_entries_def)
  qed
qed


lemma parse_response_unfold:
  assumes "integrations_of resp = Inr (JObj ints)"
  shows "parse_response resp = bind (for_each swap_key (dict_keys ints) resp) (\<lambda>resp'. Inr [resp'])"
proof -
  from integrations_ofD [OF assms] obtain d cust where
    "resp = JObj d" "map_of d ''customer'' = Some (JObj cust)"
    "map_of cust ''integrations'' = Some (JObj ints)" by blast
  then show ?thesis by (simp add: parse_response_def)
qed

lemma parse_response_normal:
  assumes "integrations_of resp = Inr (JObj ints)"
    and "distinct (dict_keys ints)" and "''shopify'' \<notin> set (dict_keys ints)"
    and "\<forall>p \<in> set ints. has_discriminator (snd p)"
  shows "\<exists>d cust. resp = JObj d \<and> map_of d ''customer'' = Some (JObj cust) \<and>
           map_of cust ''integrations'' = Some (JObj ints) \<and>
           parse_response resp =
             Inr [with_integrations d cust (other_entries ints @ relocated [] ints)]"
proof -
  from integrations_ofD [OF assms(1)] obtain d cust where
    r: "resp = with_integrations d cust ints" and
    d: "resp = JObj d" "map_of d ''customer'' = Some (JObj cust)"
       "map_of cust ''integrations'' = Some (JObj ints)" by blast
  have "for_each swap_key (dict_keys ints) (with_integrations d cust ([] @ ints @ [])) =
        Inr (with_integrations d cust ([] @ other_entries ints @ relocated [] ints))"
    using assms(2-4) by (intro swap_loop) auto
  then have "parse_response resp =
        Inr [with_integrations d cust (other_entries ints @ relocated [] ints)]"
    using parse_response_unfold [OF assms(1)] r by simp
  with d show ?thesis by blast
qed

text \<open>Whatever an iteration does, it changes nothing outside the integrations.\<close>

lemma bind_eq_Inr: "bind m f = Inr y \<longleftrightarrow> (\<exists>x. m = Inr x \<and> f x = Inr y)"
  by (cases m) auto

lemma setitem_eq_Inr: "setitem x k v = Inr y \<longleftrightarrow> (\<exists>d. x = JObj d \<and> y = JObj (dict_set d k v))"
  by (cases x) auto

lemma swap_key_frame:
  assumes "swap_key key (with_integrations d cust ints) = Inr r"
  shows "\<exists>ints'. r = with_integrations d cust ints'"
proof -
  let ?w = "with_integrations d cust ints"
  from assms obtain entry t where
    t: "getitem entry ''__integration_type__'' = Inr t" and
    rest: "(if t = JStr ''shopify'' then
         bind (pop (JObj ints) key) (\<lambda>(popped, ints1).
         bind (setitem ints1 ''shopify'' popped) (\<lambda>ints2.
         bind (getitem ints2 ''shopify'') (\<lambda>shop.
         bind (setitem shop ''id'' (JStr key)) (\<lambda>shop'.
         bind (setitem ints2 ''shopify'' shop') (\<lambda>ints3.
         put_integrations ?w ints3)))))
       else Inr ?w) = Inr r"
    by (auto simp: swap_key_def getitem_with_integrations map_of_dict_set bind_eq_Inr)
  show ?thesis
  proof (cases "t = JStr ''shopify''")
    case False
    with rest show ?thesis by auto
  next
    case True
    with rest obtain ints2 shop' ints3 where
      "setitem ints2 ''shopify'' shop' = Inr ints3" "put_integrations ?w ints3 = Inr r"
      by (auto simp: bind_eq_Inr)
    then show ?thesis
      by (auto simp: setitem_eq_Inr put_integrations_with_integrations)
  qed
qed

lemma for_each_swap_key_frame:
  "for_each swap_key ks (with_integrations d cust ints) = Inr r \<Longrightarrow>
   \<exists>ints'. r = with_integrations d cust ints'"
proof (induction ks arbitrary: ints)
  case Nil
  then show ?case by auto
next
  case (Cons k ks)
  then obtain r1 where s: "swap_key k (with_integrations d cust ints) = Inr r1"
    and l: "for_each swap_key ks r1 = Inr r" by (auto simp: bind_eq_Inr)
  from swap_key_frame [OF s] obtain i1 where "r1 = with_integrations d cust i1" by blast
  with l Cons.IH show ?case by blast
qed

lemma parse_response_frame:
  assumes "parse_response resp = Inr rs"
  shows "\<exists>d cust ints ints'. resp = JObj d \<and> map_of d ''customer'' = Some (JObj cust) \<and>
           map_of cust ''integrations'' = Some (JObj ints) \<and>
           rs = [with_integrations d cust ints']"
proof -
  from assms obtain customer ints0 ks resp' where
    c: "getitem resp ''customer'' = Inr customer" and
    i: "getitem customer ''integrations'' = Inr ints0" and
    k: "keys_of ints0 = Inr ks" and
    l: "for_each swap_key ks resp = Inr resp'" and rs: "rs = [resp']"
    by (auto simp: parse_response_def bind_eq_Inr)
  from k obtain ints where ints: "ints0 = JObj ints" by (cases ints0) auto
  from c i ints have "integrations_of resp = Inr (JObj ints)"
    by (simp add: integrations_of_def)
  from integrations_ofD [OF this] obtain d cust where
    d: "resp = with_integrations d cust ints" "resp = JObj d"
       "map_of d ''customer'' = Some (JObj cust)"
       "map_of cust ''integrations'' = Some (JObj ints)" by blast
  from l d(1) for_each_swap_key_frame obtain ints' where "resp' = with_integrations d cust ints'"
    by blast
  with d rs show ?thesis by blast
qed

text \<open>An entry without a discriminator ends the loop with an exception.\<close>

lemma swap_key_fail:
  assumes "map_of ints key = Some v" and "\<not> has_discriminator v"
  shows "\<exists>e. swap_key key (with_integrations d cust ints) = Inl e"
proof -
  from assms(2) obtain e where "getitem v ''__integration_type__'' = Inl e"
    by (auto simp: has_discriminator_def split: sum.splits)
  with assms(1) show ?thesis
    by (simp add: swap_key_def getitem_with_integrations map_of_dict_set)
qed

lemma swap_loop_fail:
  assumes "distinct (dict_keys (a @ r))" and "''shopify'' \<notin> set (dict_keys (a @ r))"
    and "\<exists>p \<in> set r. \<not> has_discriminator (snd p)"
    and "s = [] \<or> (\<exists>x. s = [(''shopify'', x)])"
  shows "\<exists>e. for_each swap_key (dict_keys r) (with_integrations d cust (a @ r @ s)) = Inl e"
  using assms
proof (induction r arbitrary: a s)
  case Nil
  then show ?case by simp
next
  case (Cons p r)
  obtain k v where p: "p = (k, v)" by (cases p)
  from Cons.prems(1) p have ka: "k \<notin> set (dict_keys a)" and kr: "k \<notin> set (dict_keys r)"
    by (auto simp: dict_keys_def)
  from Cons.prems(2) p have ks: "k \<noteq> ''shopify''" by (auto simp: dict_keys_def)
  with Cons.prems(4) have kS: "k \<notin> set (dict_keys s)" by (auto simp: dict_keys_def)
  have look: "map_of (a @ (k, v) # r @ s) k = Some v"
    using map_of_middle [OF ka, of v "r @ s"] by simp
  have keys: "dict_keys ((k, v) # r) = k # dict_keys r" by (simp add: dict_keys_def)
  show ?case
  proof (cases "has_discriminator v")
    case False
    from swap_key_fail [OF look False, of d cust] show ?thesis
      by (auto simp: p keys)
  next
    case True
    then obtain fs t where v: "v = JObj fs" and t: "map_of fs ''__integration_type__'' = Some t"
      using has_discriminatorD by blast
    from True Cons.prems(3) p have ex: "\<exists>p \<in> set r. \<not> has_discriminator (snd p)" by auto
    show ?thesis
    proof (cases "t = JStr ''shopify''")
      case False
      have step: "swap_key k (with_integrations d cust (a @ p # r @ s)) =
                  Inr (with_integrations d cust ((a @ [p]) @ r @ s))"
        using swap_key_step [of "a @ (k, v) # r @ s" k fs t d cust] look v t False p by simp
      have "\<exists>e. for_each swap_key (dict_keys r) (with_integrations d cust ((a @ [p]) @ r @ s)) = Inl e"
        using Cons.prems(1,2,4) ex by (intro Cons.IH) (auto simp: dict_keys_def)
      with step show ?thesis by (auto simp: p keys)
    next
      case True
      have del: "dict_del (a @ (k, v) # r @ s) k = a @ r @ s"
        by (rule dict_del_middle [OF ka kr kS])
      have slot: "dict_set ((a @ r) @ s) ''shopify'' (with_id k v) = (a @ r) @ [(''shopify'', with_id k v)]"
        using Cons.prems(2,4) by (intro dict_set_slot) (auto simp: dict_keys_def)
      have step: "swap_key k (with_integrations d cust (a @ p # r @ s)) =
                  Inr (with_integrations d cust (a @ r @ [(''shopify'', with_id k v)]))"
        using swap_key_step [of "a @ (k, v) # r @ s" k fs t d cust] look t True p del slot v by simp
      have "\<exists>e. for_each swap_key (dict_keys r) (with_integrations d cust (a @ r @ [(''shopify'', with_id k v)])) = Inl e"
        using Cons.prems(1,2) ex by (intro Cons.IH) (auto simp: dict_keys_def)
      with step show ?thesis by (auto simp: p keys)
    qed
  qed
qed

lemma parse_response_fail:
  assumes "integrations_of resp = Inr (JObj ints)"
    and "distinct (dict_keys ints)" and "''shopify'' \<notin> set (dict_keys ints)"
    and "\<exists>p \<in> set ints. \<not> has_discriminator (snd p)"
  shows "\<exists>e. parse_response resp = Inl e"
proof -
  from integrations_ofD [OF assms(1)] obtain d cust where
    r: "resp = with_integrations d cust ints" by blast
  have "\<exists>e. for_each swap_key (dict_keys ints) (with_integrations d cust ([] @ ints @ [])) = Inl e"
    using assms(2-4) by (intro swap_loop_fail) auto
  then show ?thesis
    using parse_response_unfold [OF assms(1)] r by auto
qed

section \<open>Pruning\<close>

lemma pop_bodies_JObj: "pop_bodies (JObj d) = Inr (JObj (prune d))"
  by (simp add: pop_bodies_def prune_def dict_del_def body_fields_def conj_commute conj_left_commute)

lemma map_of_prune: "map_of (prune d) k = (if k \<in> set body_fields then None else map_of d k)"
  by (induction d) (auto simp: prune_def)

lemma map_each_pop_bodies:
  "\<forall>m \<in> set ms. \<exists>md. m = JObj md \<Longrightarrow>
   \<exists>ms'. map_each pop_bodies ms = Inr ms' \<and> length ms' = length ms \<and>
         (\<forall>m' \<in> set ms'. \<exists>md. m' = JObj (prune md))"
proof (induction ms)
  case Nil
  then show ?case by simp
next
  case (Cons m ms)
  then obtain md where "m = JObj md" by auto
  moreover from Cons obtain ms' where "map_each pop_bodies ms = Inr ms'" "length ms' = length ms"
    "\<forall>m' \<in> set ms'. \<exists>md. m' = JObj (prune md)" by auto
  ultimately show ?case by (auto simp: pop_bodies_JObj)
qed

section \<open>Facts about the normal form\<close>

lemma other_entries_keys: "set (dict_keys (other_entries ints)) \<subseteq> set (dict_keys ints)"
  by (auto simp: other_entries_def dict_keys_def)

lemma shopify_entries_subset: "set (shopify_entries ints) \<subseteq> set ints"
  by (auto simp: shopify_entries_def)

lemma shopify_key_gone:
  assumes "distinct (dict_keys ints)" and "p \<in> set (shopify_entries ints)"
  shows "fst p \<notin> set (dict_keys (other_entries ints))"
proof
  assume "fst p \<in> set (dict_keys (other_entries ints))"
  then obtain q where q: "q \<in> set ints" "\<not> is_shopify (snd q)" "fst q = fst p"
    by (auto simp: other_entries_def dict_keys_def)
  from assms(2) have p: "p \<in> set ints" "is_shopify (snd p)"
    by (auto simp: shopify_entries_def)
  from assms(1) q(1,3) p(1) have "q = p"
    by (metis dict_keys_def eq_key_imp_eq_value prod.collapse)
  with q(2) p(2) show False by simp
qed

lemma map_of_slot:
  "''shopify'' \<notin> set (dict_keys a) \<Longrightarrow> map_of (a @ [(''shopify'', x)]) ''shopify'' = Some x"
  using map_of_middle [of "''shopify''" a x "[]"] by simp

lemma other_entry_kept:
  assumes "distinct (dict_keys ints)" and "p \<in> set ints" and "\<not> is_shopify (snd p)"
  shows "map_of (other_entries ints @ s) (fst p) = Some (snd p)"
proof -
  have "distinct (map fst (other_entries ints))"
    using assms(1) by (simp add: other_entries_def dict_keys_def distinct_map_filter)
  moreover have "(fst p, snd p) \<in> set (other_entries ints)"
    using assms(2,3) by (simp add: other_entries_def)
  ultimately have "map_of (other_entries ints) (fst p) = Some (snd p)"
    by (rule map_of_is_SomeI)
  then show ?thesis by (simp add: map_add_Some_iff)
qed

lemma relocated_last:
  "shopify_entries ints \<noteq> [] \<Longrightarrow>
   relocated s ints = [(''shopify'', with_id (fst (last (shopify_entries ints)))
                                   (snd (last (shopify_entries ints))))]"
  by (cases "shopify_entries ints") (simp_all add: relocated_def)

lemma getitem_with_id:
  "getitem (with_id k (JObj fs)) f = (if f = ''id'' then Inr (JStr k) else getitem (JObj fs) f)"
  by (simp add: map_of_dict_set)

lemmas sample_defs =
  sample_response_def shopify_object_def email_object_def sample_message_def
  integrations_of_def dict_keys_def has_discriminator_def is_shopify_def
  shopify_entries_def


section \<open>Dynamic-key normalization (C1, C2)\<close>

text \<open>
  C1, as stated, fails. The claim asks of every response with exactly one matching
  sub-object, under a key \<open>k\<close>, that \<^verbatim>\<open>parse_response\<close> yields a record whose
  integrations bind \<^verbatim>\<open>"shopify"\<close> to that sub-object with \<open>k\<close> as its \<^verbatim>\<open>"id"\<close>.
  Two responses with exactly one matching sub-object under the key \<^verbatim>\<open>"5"\<close>: in the
  first another entry has no \<^verbatim>\<open>"__integration_type__"\<close> field, the subscript raises
  \<^verbatim>\<open>KeyError\<close> and no record is yielded; in the second a later entry is stored under
  the key \<^verbatim>\<open>"shopify"\<close> itself, the loop reaches that key after the relocation, finds
  the relocated sub-object there and sets its \<^verbatim>\<open>"id"\<close> to \<^verbatim>\<open>"shopify"\<close>.
\<close>

theorem parse_response_single_match_counterexample:
  "shopify_entries [(''5'', shopify_object), (''7'', JObj [(''name'', JStr ''x'')])] =
     [(''5'', shopify_object)] \<and>
   parse_response (sample_response [(''5'', shopify_object), (''7'', JObj [(''name'', JStr ''x'')])]) =
     Inl KeyError \<and>
   shopify_entries [(''5'', shopify_object), (''shopify'', email_object)] =
     [(''5'', shopify_object)] \<and>
   parse_response (sample_response [(''5'', shopify_object), (''shopify'', email_object)]) =
     Inr [sample_response
            [(''shopify'', JObj [(''__integration_type__'', JStr ''shopify''),
                                (''orders'', JArr []), (''id'', JStr ''shopify'')])]]"
  by (simp add: sample_defs parse_response_def swap_key_def put_integrations_def dict_del_def)


text \<open>
  C1, amended: for every ticket-details response whose \<^verbatim>\<open>customer.integrations\<close>
  mapping has no entry under the key \<^verbatim>\<open>"shopify"\<close>, whose entries are all objects
  with an \<^verbatim>\<open>"__integration_type__"\<close> field, and which contains exactly one sub-object
  whose discriminator equals \<^verbatim>\<open>"shopify"\<close>, under the key \<open>k\<close>:
  \<^verbatim>\<open>parse_response\<close> yields one record, whose integrations bind \<^verbatim>\<open>"shopify"\<close> to that
  sub-object with \<open>k\<close> in its \<^verbatim>\<open>"id"\<close> field and its other fields as they were, and
  the key \<open>k\<close> is no longer in the mapping. (The keys of a Python dictionary are
  distinct, which \<open>distinct (dict_keys ints)\<close> says of the association list.)
\<close>

theorem parse_response_single_match:
  assumes "integrations_of resp = Inr (JObj ints)"
    and "distinct (dict_keys ints)"
    and "\<forall>p \<in> set ints. has_discriminator (snd p)"
    and "''shopify'' \<notin> set (dict_keys ints)"
    and "shopify_entries ints = [(k, v)]"
  shows "\<exists>r ints' shop. parse_response resp = Inr [r] \<and>
           integrations_of r = Inr (JObj ints') \<and>
           map_of ints' ''shopify'' = Some shop \<and>
           getitem shop ''id'' = Inr (JStr k) \<and>
           (\<forall>f. f \<noteq> ''id'' \<longrightarrow> getitem shop f = getitem v f) \<and>
           k \<notin> set (dict_keys ints')"
proof -
  let ?ints' = "other_entries ints @ [(''shopify'', with_id k v)]"
  from parse_response_normal [OF assms(1,2,4,3)] obtain d cust where
    "parse_response resp = Inr [with_integrations d cust (other_entries ints @ relocated [] ints)]"
    by blast
  then have run: "parse_response resp = Inr [with_integrations d cust ?ints']"
    using assms(5) by (simp add: relocated_def)
  have kv: "(k, v) \<in> set (shopify_entries ints)" using assms(5) by simp
  then have mem: "(k, v) \<in> set ints" using shopify_entries_subset by blast
  with assms(3) obtain fs where v: "v = JObj fs"
    using has_discriminatorD by fastforce
  have no_slot: "''shopify'' \<notin> set (dict_keys (other_entries ints))"
    using assms(4) other_entries_keys by blast
  have "k \<in> set (dict_keys ints)" using mem by (force simp: dict_keys_def)
  with assms(4) have "k \<noteq> ''shopify''" by auto
  moreover have "k \<notin> set (dict_keys (other_entries ints))"
    using shopify_key_gone [OF assms(2) kv] by simp
  ultimately have gone: "k \<notin> set (dict_keys ?ints')" by (simp add: dict_keys_def)
  have "integrations_of (with_integrations d cust ?ints') = Inr (JObj ?ints')"
    by (rule integrations_of_with_integrations)
  moreover have "map_of ?ints' ''shopify'' = Some (with_id k v)"
    by (rule map_of_slot [OF no_slot])
  moreover have "getitem (with_id k v) ''id'' = Inr (JStr k)"
    by (simp only: v getitem_with_id) simp
  moreover have "\<forall>f. f \<noteq> ''id'' \<longrightarrow> getitem (with_id k v) f = getitem v f"
    by (simp only: v getitem_with_id) simp
  ultimately show ?thesis using run gone by blast
qed

theorem parse_response_single_match_witness:
  "\<exists>r ints' shop.
     parse_response (sample_response [(''5'', email_object), (''7'', shopify_object)]) = Inr [r] \<and>
     integrations_of r = Inr (JObj ints') \<and>
     map_of ints' ''shopify'' = Some shop \<and>
     getitem shop ''id'' = Inr (JStr ''7'') \<and>
     (\<forall>f. f \<noteq> ''id'' \<longrightarrow> getitem shop f = getitem shopify_object f) \<and>
     ''7'' \<notin> set (dict_keys ints')"
  by (rule parse_response_single_match
        [where ints = "[(''5'', email_object), (''7'', shopify_object)]"])
     (simp_all add: sample_defs)


text \<open>
  C2, as stated, fails: the source has no check for a second match and raises no
  \<^verbatim>\<open>TransformError\<close>. With two matching sub-objects, under \<^verbatim>\<open>"5"\<close> and \<^verbatim>\<open>"7"\<close>,
  \<^verbatim>\<open>parse_response\<close> yields a record that keeps the one under \<^verbatim>\<open>"7"\<close> and drops
  the other.
\<close>

theorem parse_response_many_matches_counterexample:
  "parse_response (sample_response
     [(''5'', shopify_object),
      (''7'', JObj [(''__integration_type__'', JStr ''shopify''), (''shop'', JStr ''b'')])]) =
   Inr [sample_response
          [(''shopify'', JObj [(''__integration_type__'', JStr ''shopify''), (''shop'', JStr ''b''),
                              (''id'', JStr ''7'')])]] \<and>
   parse_response (sample_response
     [(''5'', shopify_object),
      (''7'', JObj [(''__integration_type__'', JStr ''shopify''), (''shop'', JStr ''b'')])]) \<noteq>
   Inl TransformError"
  by (simp add: sample_defs parse_response_def swap_key_def put_integrations_def dict_del_def)

text \<open>
  C2, amended: for every ticket-details response whose \<^verbatim>\<open>customer.integrations\<close>
  mapping has no entry under the key \<^verbatim>\<open>"shopify"\<close>, whose entries are all objects
  with an \<^verbatim>\<open>"__integration_type__"\<close> field, and which contains two or more sub-objects
  whose discriminator equals \<^verbatim>\<open>"shopify"\<close>: \<^verbatim>\<open>parse_response\<close> does not fail. It
  yields one record, whose integrations bind \<^verbatim>\<open>"shopify"\<close> to the last matching
  sub-object in the order of the keys, with its former key in the \<^verbatim>\<open>"id"\<close> field, and
  the keys of all matching sub-objects are gone from the mapping.
\<close>

theorem parse_response_many_matches:
  assumes "integrations_of resp = Inr (JObj ints)"
    and "distinct (dict_keys ints)"
    and "\<forall>p \<in> set ints. has_discriminator (snd p)"
    and "''shopify'' \<notin> set (dict_keys ints)"
    and "2 \<le> length (shopify_entries ints)"
  shows "\<exists>r ints'. parse_response resp = Inr [r] \<and>
           integrations_of r = Inr (JObj ints') \<and>
           map_of ints' ''shopify'' =
             Some (with_id (fst (last (shopify_entries ints))) (snd (last (shopify_entries ints)))) \<and>
           (\<forall>p \<in> set (shopify_entries ints). fst p \<notin> set (dict_keys ints'))"
proof -
  let ?shop = "with_id (fst (last (shopify_entries ints))) (snd (last (shopify_entries ints)))"
  let ?ints' = "other_entries ints @ [(''shopify'', ?shop)]"
  from assms(5) have ne: "shopify_entries ints \<noteq> []" by auto
  from parse_response_normal [OF assms(1,2,4,3)] obtain d cust where
    "parse_response resp = Inr [with_integrations d cust (other_entries ints @ relocated [] ints)]"
    by blast
  then have run: "parse_response resp = Inr [with_integrations d cust ?ints']"
    by (simp only: relocated_last [OF ne])
  have no_slot: "''shopify'' \<notin> set (dict_keys (other_entries ints))"
    using assms(4) other_entries_keys by blast
  have gone: "\<forall>p \<in> set (shopify_entries ints). fst p \<notin> set (dict_keys ?ints')"
  proof
    fix p assume p: "p \<in> set (shopify_entries ints)"
    then have "fst p \<in> set (dict_keys ints)"
      using shopify_entries_subset by (force simp: dict_keys_def)
    with assms(4) have "fst p \<noteq> ''shopify''" by auto
    moreover have "fst p \<notin> set (dict_keys (other_entries ints))"
      by (rule shopify_key_gone [OF assms(2) p])
    ultimately show "fst p \<notin> set (dict_keys ?ints')" by (simp add: dict_keys_def)
  qed
  have "integrations_of (with_integrations d cust ?ints') = Inr (JObj ?ints')"
    by (rule integrations_of_with_integrations)
  moreover have "map_of ?ints' ''shopify'' = Some ?shop"
    by (rule map_of_slot [OF no_slot])
  ultimately show ?thesis using run gone by blast
qed


theorem parse_response_many_matches_witness:
  "\<exists>r ints'.
     parse_response (sample_response
       [(''5'', shopify_object), (''6'', email_object),
        (''7'', JObj [(''__integration_type__'', JStr ''shopify''), (''shop'', JStr ''b'')])]) = Inr [r] \<and>
     integrations_of r = Inr (JObj ints') \<and>
     map_of ints' ''shopify'' =
       Some (JObj [(''__integration_type__'', JStr ''shopify''), (''shop'', JStr ''b''),
                   (''id'', JStr ''7'')]) \<and>
     ''5'' \<notin> set (dict_keys ints') \<and> ''7'' \<notin> set (dict_keys ints')"
  using parse_response_many_matches
        [where resp = "sample_response
           [(''5'', shopify_object), (''6'', email_object),
            (''7'', JObj [(''__integration_type__'', JStr ''shopify''), (''shop'', JStr ''b'')])]"
         and ints = "[(''5'', shopify_object), (''6'', email_object),
            (''7'', JObj [(''__integration_type__'', JStr ''shopify''), (''shop'', JStr ''b'')])]"]
  by (simp add: sample_defs)


section \<open>What parse\_response leaves alone (C10)\<close>

lemma getitem_with_integrations_other:
  "f \<noteq> ''customer'' \<Longrightarrow> getitem (with_integrations d cust ints) f = getitem (JObj d) f"
  by (simp add: with_integrations_def map_of_dict_set)

lemma keys_of_with_integrations:
  "map_of d ''customer'' = Some c \<Longrightarrow> keys_of (with_integrations d cust ints) = keys_of (JObj d)"
  by (simp add: with_integrations_def dict_keys_dict_set)

lemma customer_of_with_integrations:
  assumes "map_of d ''customer'' = Some (JObj cust)"
  shows "bind (getitem (with_integrations d cust ints) ''customer'') g =
         g (JObj (dict_set cust ''integrations'' (JObj ints)))"
    and "bind (getitem (JObj d) ''customer'') g = g (JObj cust)"
  using assms by (simp_all add: getitem_with_integrations)

text \<open>
  C10, as stated, fails in its second half. An entry whose type is not
  \<^verbatim>\<open>"shopify"\<close> but which is stored under the key \<^verbatim>\<open>"shopify"\<close> is overwritten when
  a matching sub-object is moved to that key: here the entry of type \<^verbatim>\<open>"email"\<close> is
  gone from the yielded record.
\<close>

theorem parse_response_frame_integrations_counterexample:
  "\<not> is_shopify email_object \<and>
   parse_response (sample_response [(''shopify'', email_object), (''5'', shopify_object)]) =
     Inr [sample_response
            [(''shopify'', JObj [(''__integration_type__'', JStr ''shopify''),
                                (''orders'', JArr []), (''id'', JStr ''5'')])]]"
  by (simp add: sample_defs parse_response_def swap_key_def put_integrations_def dict_del_def)

text \<open>
  C10, amended: \<^verbatim>\<open>parse_response\<close> modifies only the \<^verbatim>\<open>customer.integrations\<close>
  sub-mapping of the response. For every response object and every record yielded for
  it, the top-level keys and every top-level field other than \<^verbatim>\<open>"customer"\<close> are those
  of the raw response, and so are the keys of \<^verbatim>\<open>"customer"\<close> and each of its fields
  other than \<^verbatim>\<open>"integrations"\<close>; and, provided no entry of the integrations is stored
  under the key \<^verbatim>\<open>"shopify"\<close>, every entry whose \<^verbatim>\<open>"__integration_type__"\<close> is not
  \<^verbatim>\<open>"shopify"\<close> is in the yielded integrations under its key, unchanged. (The keys
  of a Python dictionary are distinct: \<open>distinct (dict_keys ints)\<close>.)
\<close>

theorem parse_response_frame_integrations:
  assumes "parse_response resp = Inr rs"
  shows "\<exists>r ints ints'. rs = [r] \<and>
           keys_of r = keys_of resp \<and>
           (\<forall>f. f \<noteq> ''customer'' \<longrightarrow> getitem r f = getitem resp f) \<and>
           bind (getitem r ''customer'') keys_of = bind (getitem resp ''customer'') keys_of \<and>
           (\<forall>f. f \<noteq> ''integrations'' \<longrightarrow>
              bind (getitem r ''customer'') (\<lambda>c. getitem c f) =
              bind (getitem resp ''customer'') (\<lambda>c. getitem c f)) \<and>
           integrations_of resp = Inr (JObj ints) \<and>
           integrations_of r = Inr (JObj ints') \<and>
           (distinct (dict_keys ints) \<and> ''shopify'' \<notin> set (dict_keys ints) \<longrightarrow>
              (\<forall>p \<in> set ints. \<not> is_shopify (snd p) \<longrightarrow> map_of ints' (fst p) = Some (snd p)))"
proof -
  from parse_response_frame [OF assms] obtain d cust ints ints' where
    d: "resp = JObj d" "map_of d ''customer'' = Some (JObj cust)"
       "map_of cust ''integrations'' = Some (JObj ints)" and
    rs: "rs = [with_integrations d cust ints']" by blast
  let ?r = "with_integrations d cust ints'"
  have io: "integrations_of resp = Inr (JObj ints)"
    using d by (simp add: integrations_of_def)
  have "keys_of ?r = keys_of resp"
    using d by (simp only: keys_of_with_integrations)
  moreover have "\<forall>f. f \<noteq> ''customer'' \<longrightarrow> getitem ?r f = getitem resp f"
    using d(1) by (simp add: getitem_with_integrations_other)
  moreover have "bind (getitem ?r ''customer'') keys_of = bind (getitem resp ''customer'') keys_of"
    unfolding d(1) customer_of_with_integrations [OF d(2)]
    using d(3) by (simp add: dict_keys_dict_set)
  moreover have "\<forall>f. f \<noteq> ''integrations'' \<longrightarrow>
      bind (getitem ?r ''customer'') (\<lambda>c. getitem c f) =
      bind (getitem resp ''customer'') (\<lambda>c. getitem c f)"
    unfolding d(1) customer_of_with_integrations [OF d(2)]
    by (simp add: map_of_dict_set)
  moreover have out: "integrations_of ?r = Inr (JObj ints')"
    by (rule integrations_of_with_integrations)
  moreover have "distinct (dict_keys ints) \<and> ''shopify'' \<notin> set (dict_keys ints) \<longrightarrow>
      (\<forall>p \<in> set ints. \<not> is_shopify (snd p) \<longrightarrow> map_of ints' (fst p) = Some (snd p))"
  proof
    assume h: "distinct (dict_keys ints) \<and> ''shopify'' \<notin> set (dict_keys ints)"
    then have dist: "distinct (dict_keys ints)" and slot: "''shopify'' \<notin> set (dict_keys ints)"
      by simp_all
    have all: "\<forall>p \<in> set ints. has_discriminator (snd p)"
    proof (rule ccontr)
      assume "\<not> (\<forall>p \<in> set ints. has_discriminator (snd p))"
      then have "\<exists>p \<in> set ints. \<not> has_discriminator (snd p)" by simp
      from parse_response_fail [OF io dist slot this] assms show False by auto
    qed
    from parse_response_normal [OF io dist slot all] obtain d1 cust1 where
      d1: "resp = JObj d1" "map_of d1 ''customer'' = Some (JObj cust1)" and
      run: "parse_response resp =
              Inr [with_integrations d1 cust1 (other_entries ints @ relocated [] ints)]"
      by blast
    from d1 d(1,2) have "d1 = d" "cust1 = cust" by simp_all
    with run assms rs have
      "with_integrations d cust ints' =
       with_integrations d cust (other_entries ints @ relocated [] ints)" by simp
    then have "integrations_of (with_integrations d cust ints') =
       integrations_of (with_integrations d cust (other_entries ints @ relocated [] ints))"
      by (rule arg_cong)
    then have "ints' = other_entries ints @ relocated [] ints"
      by (simp add: integrations_of_with_integrations)
    then show "\<forall>p \<in> set ints. \<not> is_shopify (snd p) \<longrightarrow> map_of ints' (fst p) = Some (snd p)"
      using other_entry_kept [OF dist] by blast
  qed
  ultimately show ?thesis using rs io by blast
qed

theorem parse_response_frame_integrations_witness:
  "\<exists>r ints'.
     [sample_response [(''5'', email_object),
        (''shopify'', JObj [(''__integration_type__'', JStr ''shopify''), (''orders'', JArr []),
                           (''id'', JStr ''7'')])]] = [r] \<and>
     keys_of r = keys_of (sample_response [(''5'', email_object), (''7'', shopify_object)]) \<and>
     getitem r ''messages'' =
       getitem (sample_response [(''5'', email_object), (''7'', shopify_object)]) ''messages'' \<and>
     integrations_of r = Inr (JObj ints') \<and>
     map_of ints' ''5'' = Some email_object"
proof -
  have run: "parse_response (sample_response [(''5'', email_object), (''7'', shopify_object)]) =
        Inr [sample_response [(''5'', email_object), (''shopify'', JObj [(''__integration_type__'', JStr ''shopify''), (''orders'', JArr []), (''id'', JStr ''7'')])]]"
    by (simp add: sample_defs parse_response_def swap_key_def put_integrations_def dict_del_def)
  show ?thesis
    using parse_response_frame_integrations [OF run]
    by (simp add: sample_defs)
qed

section \<open>Field pruning (C3, C9)\<close>

lemma has_fieldD: "has_field x f \<Longrightarrow> \<exists>d. x = JObj d"
  by (cases x) (simp_all add: has_field_def)

lemma has_field_prune: "f \<in> set body_fields \<Longrightarrow> \<not> has_field (JObj (prune d)) f"
  by (simp add: has_field_def map_of_prune)

lemma post_process_JArr:
  assumes "map_of d ''messages'' = Some (JArr ms)"
    and "map_each pop_bodies ms = Inr ms'"
  shows "post_process (JObj d) context = Inr (JObj (dict_set (prune d) ''messages'' (JArr ms')))"
proof -
  have "''messages'' \<notin> set body_fields" by (simp add: body_fields_def)
  then have "map_of (prune d) ''messages'' = Some (JArr ms)"
    using assms(1) by (simp add: map_of_prune)
  then show ?thesis
    using assms(2) by (simp add: post_process_def pop_bodies_JObj)
qed

lemma has_field_pruned_row:
  assumes "f \<in> set body_fields"
  shows "\<not> has_field (JObj (dict_set (prune d) ''messages'' v)) f"
proof -
  from assms have "f \<noteq> ''messages''" by (auto simp: body_fields_def)
  with assms show ?thesis by (simp add: has_field_def map_of_dict_set map_of_prune)
qed

text \<open>
  C3: for every ticket-details record that has the four fields \<^verbatim>\<open>body_html\<close>,
  \<^verbatim>\<open>body_text\<close>, \<^verbatim>\<open>stripped_text\<close>, \<^verbatim>\<open>stripped_html\<close> at top level and a
  \<^verbatim>\<open>"messages"\<close> array whose elements each have the same four fields,
  \<^verbatim>\<open>post_process\<close> returns a record that has none of the four fields at top level,
  and whose \<^verbatim>\<open>"messages"\<close> is an array of as many objects, none of which has any of
  the four fields.
\<close>

theorem post_process_prunes:
  assumes "\<forall>f \<in> set body_fields. has_field row f"
    and "getitem row ''messages'' = Inr (JArr ms)"
    and "\<forall>m \<in> set ms. \<forall>f \<in> set body_fields. has_field m f"
  shows "\<exists>d' ms'. post_process row context = Inr (JObj d') \<and>
           (\<forall>f \<in> set body_fields. \<not> has_field (JObj d') f) \<and>
           getitem (JObj d') ''messages'' = Inr (JArr ms') \<and>
           length ms' = length ms \<and>
           (\<forall>m' \<in> set ms'. (\<exists>md'. m' = JObj md') \<and> (\<forall>f \<in> set body_fields. \<not> has_field m' f))"
proof -
  from assms(2) obtain d where row: "row = JObj d" and m: "map_of d ''messages'' = Some (JArr ms)"
    by (cases row) (auto split: option.splits)
  have objs: "\<forall>m \<in> set ms. \<exists>md. m = JObj md"
  proof
    fix m assume "m \<in> set ms"
    with assms(3) have "has_field m ''body_text''" by (simp add: body_fields_def)
    then show "\<exists>md. m = JObj md" by (rule has_fieldD)
  qed
  from map_each_pop_bodies [OF objs] obtain ms' where
    ms': "map_each pop_bodies ms = Inr ms'" "length ms' = length ms"
         "\<forall>m' \<in> set ms'. \<exists>md. m' = JObj (prune md)" by blast
  let ?d' = "dict_set (prune d) ''messages'' (JArr ms')"
  have run: "post_process row context = Inr (JObj ?d')"
    using post_process_JArr [OF m ms'(1)] row by simp
  have top: "\<forall>f \<in> set body_fields. \<not> has_field (JObj ?d') f"
    using has_field_pruned_row by blast
  have msgs: "getitem (JObj ?d') ''messages'' = Inr (JArr ms')"
    by (simp add: map_of_dict_set)
  have each: "\<forall>m' \<in> set ms'. (\<exists>md'. m' = JObj md') \<and> (\<forall>f \<in> set body_fields. \<not> has_field m' f)"
  proof
    fix m' assume "m' \<in> set ms'"
    with ms'(3) obtain md where md: "m' = JObj (prune md)" by blast
    then have "\<exists>md'. m' = JObj md'" by blast
    moreover have "\<forall>f \<in> set body_fields. \<not> has_field m' f"
      using md has_field_prune by blast
    ultimately show "(\<exists>md'. m' = JObj md') \<and> (\<forall>f \<in> set body_fields. \<not> has_field m' f)" ..
  qed
  show ?thesis
    by (intro exI conjI) (rule run top msgs ms'(2) each)+
qed

theorem post_process_prunes_witness:
  "\<exists>d' ms'. post_process (sample_response []) None = Inr (JObj d') \<and>
     \<not> has_field (JObj d') ''body_text'' \<and> \<not> has_field (JObj d') ''body_html'' \<and>
     \<not> has_field (JObj d') ''stripped_text'' \<and> \<not> has_field (JObj d') ''stripped_html'' \<and>
     getitem (JObj d') ''messages'' = Inr (JArr ms') \<and> length ms' = 2"
proof -
  have h1: "\<forall>f \<in> set body_fields. has_field (sample_response []) f"
    by (simp add: sample_defs has_field_def body_fields_def)
  have h2: "getitem (sample_response []) ''messages'' = Inr (JArr [sample_message, sample_message])"
    by (simp add: sample_response_def)
  have h3: "\<forall>m \<in> set [sample_message, sample_message]. \<forall>f \<in> set body_fields. has_field m f"
    by (simp add: sample_defs has_field_def body_fields_def)
  from post_process_prunes [OF h1 h2 h3, of None] obtain d' ms' where
    r: "post_process (sample_response []) None = Inr (JObj d')"
       "\<forall>f \<in> set body_fields. \<not> has_field (JObj d') f"
       "getitem (JObj d') ''messages'' = Inr (JArr ms')" "length ms' = length [sample_message, sample_message]"
    by blast
  from r(2) have "\<not> has_field (JObj d') ''body_text''" "\<not> has_field (JObj d') ''body_html''"
    "\<not> has_field (JObj d') ''stripped_text''" "\<not> has_field (JObj d') ''stripped_html''"
    by (simp_all add: body_fields_def)
  with r(1,3,4) show ?thesis by simp
qed

text \<open>
  C9: for every input record without a \<^verbatim>\<open>"messages"\<close> key, \<^verbatim>\<open>post_process\<close> raises
  \<^verbatim>\<open>KeyError\<close> and returns no record; and \<^verbatim>\<open>"messages"\<close> is not a field that the
  ticket\_details schema declares.
\<close>

theorem post_process_without_messages:
  assumes "map_of d ''messages'' = None"
  shows "post_process (JObj d) context = Inl KeyError \<and>
         ''messages'' \<notin> set (schema_fields TicketDetailsStream_schema)"
proof -
  have "map_of (prune d) ''messages'' = None"
    using assms by (simp add: map_of_prune)
  then have "post_process (JObj d) context = Inl KeyError"
    by (simp add: post_process_def pop_bodies_JObj)
  moreover have "''messages'' \<notin> set (schema_fields TicketDetailsStream_schema)"
    by (simp add: schema_fields_def TicketDetailsStream_schema_def)
  ultimately show ?thesis by simp
qed

theorem post_process_without_messages_witness:
  "post_process (JObj [(''id'', JInt 1), (''subject'', JStr ''s''), (''body_text'', JStr ''t'')]) None =
     Inl KeyError"
  using post_process_without_messages
    [where d = "[(''id'', JInt 1), (''subject'', JStr ''s''), (''body_text'', JStr ''t'')]"]
  by simp

section \<open>Child contexts (C5)\<close>

lemma placeholders_child_paths:
  "placeholders (path TicketDetailsStream) = [''ticket_id'']"
  "placeholders (path MessagesStream) = [''ticket_id'']"
  by (simp_all add: placeholders_def TicketDetailsStream_def MessagesStream_def)

text \<open>
  C5, as stated, fails in its last part: a parent record without \<^verbatim>\<open>"id"\<close> makes
  \<^verbatim>\<open>record["id"]\<close> raise Python's \<^verbatim>\<open>KeyError\<close>; the source defines and raises no
  \<^verbatim>\<open>ContextError\<close>.
\<close>

theorem get_child_context_missing_id_counterexample:
  "map_of [(''subject'', JNull)] ''id'' = None \<and>
   get_child_context (JObj [(''subject'', JNull)]) None = Inl KeyError \<and>
   get_child_context (JObj [(''subject'', JNull)]) None \<noteq> Inl ContextError"
  by (simp add: get_child_context_def)

text \<open>
  C5, amended: for every parent tickets record with an \<^verbatim>\<open>"id"\<close> field,
  \<^verbatim>\<open>get_child_context\<close> produces exactly one context mapping, \<^verbatim>\<open>{"ticket_id": id}\<close>,
  which contains every placeholder of the child endpoint templates
  \<^verbatim>\<open>"/api/tickets/{ticket_id}"\<close> and \<^verbatim>\<open>"/api/tickets/{ticket_id}/messages"\<close>; for a
  parent record without the \<^verbatim>\<open>"id"\<close> field it fails with a \<^verbatim>\<open>KeyError\<close>.
\<close>

theorem get_child_context_ticket_id:
  "(map_of record ''id'' = Some v \<longrightarrow>
      get_child_context (JObj record) context = Inr [(''ticket_id'', v)] \<and>
      set (placeholders (path TicketDetailsStream)) \<subseteq> set (dict_keys [(''ticket_id'', v)]) \<and>
      set (placeholders (path MessagesStream)) \<subseteq> set (dict_keys [(''ticket_id'', v)])) \<and>
   (map_of record ''id'' = None \<longrightarrow>
      get_child_context (JObj record) context = Inl KeyError)"
  by (simp add: get_child_context_def placeholders_child_paths dict_keys_def)

theorem get_child_context_ticket_id_witness:
  "get_child_context (JObj [(''id'', JInt 7), (''subject'', JNull)]) None =
     Inr [(''ticket_id'', JInt 7)] \<and>
   get_child_context (JObj [(''subject'', JNull)]) None = Inl KeyError"
  using get_child_context_ticket_id [of "[(''id'', JInt 7), (''subject'', JNull)]" "JInt 7" None]
    get_child_context_ticket_id [of "[(''subject'', JNull)]" "JNull" None]
  by simp

section \<open>Bookmarks (C6, C7)\<close>

text \<open>
  C6: both child streams of tickets, ticket\_details and messages, declare an empty
  \<^verbatim>\<open>state_partitioning_keys\<close>; so the bookmark key of each of the two streams is the
  same for every parent context, and any number of parent contexts (one or more) feed
  one bookmark per stream name.
\<close>

theorem child_streams_share_bookmark:
  "state_partitioning_keys TicketDetailsStream = Some [] \<and>
   state_partitioning_keys MessagesStream = Some [] \<and>
   stream_key TicketDetailsStream context = (''ticket_details'', []) \<and>
   stream_key MessagesStream context = (''messages'', []) \<and>
   set (map (stream_key TicketDetailsStream) (c # contexts)) = {(''ticket_details'', [])} \<and>
   set (map (stream_key MessagesStream) (c # contexts)) = {(''messages'', [])}"
proof -
  have t: "\<And>x. stream_key TicketDetailsStream x = (''ticket_details'', [])"
    by (simp add: stream_key_def TicketDetailsStream_def)
  have m: "\<And>x. stream_key MessagesStream x = (''messages'', [])"
    by (simp add: stream_key_def MessagesStream_def)
  have "state_partitioning_keys TicketDetailsStream = Some []"
    by (simp add: TicketDetailsStream_def)
  moreover have "state_partitioning_keys MessagesStream = Some []"
    by (simp add: MessagesStream_def)
  moreover have "set (map (stream_key TicketDetailsStream) (c # contexts)) = {(''ticket_details'', [])}"
    by (auto simp: t)
  moreover have "set (map (stream_key MessagesStream) (c # contexts)) = {(''messages'', [])}"
    by (auto simp: m)
  ultimately show ?thesis using t m by simp
qed

theorem child_streams_share_bookmark_witness:
  "stream_key TicketDetailsStream [(''ticket_id'', JInt 1)] =
     stream_key TicketDetailsStream [(''ticket_id'', JInt 2)] \<and>
   stream_key MessagesStream [(''ticket_id'', JInt 1)] =
     stream_key MessagesStream [(''ticket_id'', JInt 2)] \<and>
   stream_key TicketsStream [(''ticket_id'', JInt 1)] \<noteq>
     stream_key TicketsStream [(''ticket_id'', JInt 2)]"
  using child_streams_share_bookmark [of "[(''ticket_id'', JInt 1)]"]
    child_streams_share_bookmark [of "[(''ticket_id'', JInt 2)]"]
  by (simp add: stream_key_def TicketsStream_def)

text \<open>
  C7: the satisfaction\_surveys and customers streams declare no replication key, so
  they are full-refresh-only: \<open>observe\<close> leaves every state as it is and \<open>resume\<close>
  gives no bookmark, whatever the state, so every run starts from empty. The tickets
  stream declares the replication key \<^verbatim>\<open>"updated_datetime"\<close> and is not
  full-refresh-only: an observed value is the bookmark that \<open>resume\<close> returns.
\<close>

theorem full_refresh_streams:
  "replication_key SatisfactionSurveysStream = None \<and>
   replication_key CustomersStream = None \<and>
   replication_key TicketsStream = Some ''updated_datetime'' \<and>
   full_refresh_only SatisfactionSurveysStream \<and>
   full_refresh_only CustomersStream \<and>
   \<not> full_refresh_only TicketsStream \<and>
   observe SatisfactionSurveysStream context v marks = marks \<and>
   resume SatisfactionSurveysStream context marks = None \<and>
   observe CustomersStream context v marks = marks \<and>
   resume CustomersStream context marks = None \<and>
   resume TicketsStream context (observe TicketsStream context v Map.empty) = Some v"
  by (simp add: full_refresh_only_def observe_def resume_def SatisfactionSurveysStream_def
        CustomersStream_def TicketsStream_def)

theorem full_refresh_streams_witness:
  "resume SatisfactionSurveysStream []
     (observe SatisfactionSurveysStream [] (5::nat) Map.empty) = None \<and>
   resume CustomersStream [] (observe CustomersStream [] (5::nat) Map.empty) = None \<and>
   resume TicketsStream [] (observe TicketsStream [] (5::nat) Map.empty) = Some 5"
  using full_refresh_streams [of "[]" "5::nat" Map.empty]
    full_refresh_streams [of "[]" "5::nat" "observe SatisfactionSurveysStream [] 5 Map.empty"]
    full_refresh_streams [of "[]" "5::nat" "observe CustomersStream [] 5 Map.empty"]
  by simp

section \<open>Request parameters of a ticket's details (C8)\<close>

text \<open>
  C8: for every context and every next-page token, \<^verbatim>\<open>TicketDetailsStream.get_url_params\<close>
  returns the empty mapping.
\<close>

theorem get_url_params_empty:
  "get_url_params context next_page_token = []"
  by (simp add: get_url_params_def)

theorem get_url_params_empty_witness:
  "get_url_params (Some [(''ticket_id'', JInt 7)]) (Some (JStr ''cursor'')) = [] \<and>
   get_url_params None None = []"
  using get_url_params_empty [of "Some [(''ticket_id'', JInt 7)]" "Some (JStr ''cursor'')"]
    get_url_params_empty [of None None]
  by simp

end
